theory Spec2Isabelle
  imports Main "HOL-Library.Word"
begin

unbundle bit_operations_syntax

section \<open>Values of the Go program\<close>

text \<open>
  Embedding of \<^verbatim>\<open>handle_misc.go\<close> (package ftpserver). Go strings are byte strings and
  are modelled by \<open>string\<close>; \<open>int64\<close> values are modelled by \<open>int\<close>, with the wrap-around
  written out where the code subtracts.
\<close>

type_synonym byte = "8 word"

text \<open>
  The five algorithm constants the file names. The switch of \<open>computeHashForFile\<close> has a
  \<open>default\<close> branch, so the Go type has further values; \<open>HASHAlgoOther\<close> stands for them.
\<close>

datatype HASHAlgo =
    HASHAlgoCRC32 | HASHAlgoMD5 | HASHAlgoSHA1 | HASHAlgoSHA256 | HASHAlgoSHA512
  | HASHAlgoOther nat

text \<open>
  Errors: \<open>io.EOF\<close>, the sentinel \<open>errUnknowHash\<close> of line 23, the \<open>*NumError\<close> of
  \<open>strconv.ParseInt\<close> (the offending text and the reason), and whatever the driver or a file
  handle reports (identified by its message).
\<close>

datatype go_error = EOF | errUnknowHash | NumError string string | DriverError string

definition Quote :: "string \<Rightarrow> string" where
  "Quote s = [CHR 0x22] @ s @ [CHR 0x22]"

text \<open>
  The text \<open>%v\<close> prints for an error. \<open>Quote\<close> is \<open>strconv.Quote\<close> on text that needs no
  escaping (printable ASCII without quote or backslash).
\<close>

fun Error :: "go_error \<Rightarrow> string" where
  "Error EOF = ''EOF''"
| "Error errUnknowHash = ''unknown hash algorithm''"
| "Error (NumError num reason) = ''strconv.ParseInt: parsing '' @ Quote num @ '': '' @ reason"
| "Error (DriverError msg) = msg"

text \<open>The status constants the handlers pass to \<open>writeMessage\<close>; their numbers are declared
  outside this file and come in through \<open>statusCode\<close> below.\<close>

datatype status =
    StatusAuthAccepted | StatusActionNotTaken | StatusActionNotTakenNoFile | StatusOK
  | StatusSystemType | StatusSystemStatus | StatusSyntaxErrorNotRecognised
  | StatusSyntaxErrorParameters | StatusFileStatus | StatusFileOK | StatusClosingControlConn

datatype tlsConfig = TLSConfig string

text \<open>The control connection: the accepted socket, or \<open>tls.Server(conn, config)\<close> around
  one (the configuration pointer may be nil).\<close>

datatype conn = NetConn string | TLSServer conn "tlsConfig option"

datatype reader = NilReader | NewReader conn

datatype writer = NewWriter conn

subsection \<open>The driver and its file handles\<close>

record fileInfo =
  IsRegular :: bool
  Size :: int

text \<open>
  A \<open>FileTransfer\<close> handle: the bytes its stream delivers, the read position, the error
  \<open>Seek\<close> returns (if any), and how the stream ends once the bytes are exhausted: with
  \<open>io.EOF\<close> (\<open>None\<close>) or with a read fault.
\<close>

record fileTransfer =
  content :: "byte list"
  offset :: nat
  seekError :: "go_error option"
  readError :: "go_error option"

text \<open>\<open>Read\<close> into a buffer of \<open>k\<close> bytes.\<close>

definition Read :: "fileTransfer \<Rightarrow> nat \<Rightarrow> byte list \<times> go_error option \<times> fileTransfer" where
  "Read f k =
     (if length (content f) \<le> offset f
      then ([], Some (case readError f of None \<Rightarrow> EOF | Some e \<Rightarrow> e), f)
      else (take k (drop (offset f) (content f)), None,
            f\<lparr>offset := offset f + length (take k (drop (offset f) (content f)))\<rparr>))"

text \<open>\<open>Seek(n, io.SeekStart)\<close>; the code only calls it with \<open>n > 0\<close>.\<close>

definition Seek :: "fileTransfer \<Rightarrow> int \<Rightarrow> go_error + fileTransfer" where
  "Seek f n = (case seekError f of Some e \<Rightarrow> Inl e | None \<Rightarrow> Inr (f\<lparr>offset := nat n\<rparr>))"

text \<open>
  The client driver: \<open>Stat\<close>, \<open>OpenFile\<close>, and \<open>GetHandle\<close> when the driver also satisfies
  \<open>ClientDriverExtentionFileTransfer\<close> (\<open>None\<close> when the type assertion fails). The flag and
  mode arguments are the constants \<open>os.O_RDONLY\<close> and \<open>os.ModePerm\<close> and are left out.
\<close>

record clientDriver =
  Stat :: "string \<Rightarrow> go_error + fileInfo"
  OpenFile :: "string \<Rightarrow> go_error + fileTransfer"
  GetHandle :: "(string \<Rightarrow> int \<Rightarrow> go_error + fileTransfer) option"

record settings =
  DisableSite :: bool
  EnableHASH :: bool
  DisableMLSD :: bool
  DisableMLST :: bool
  DisableMFMT :: bool
  ListenAddr :: string
  Banner :: string

text \<open>The server: its settings and the main driver's \<open>GetTLSConfig\<close>, which returns a
  configuration pointer and an error, either of which may be nil.\<close>

record server =
  settings :: settings
  GetTLSConfig :: "tlsConfig option \<times> go_error option"

subsection \<open>The session\<close>

text \<open>
  What a handler does to the world outside this file is recorded, in order, in the
  session's \<open>events\<close>: the replies it writes (with the writer they went through), the
  driver and file-handle calls, and the calls to handlers that live in other files.
\<close>

datatype event =
    WriteMessage writer status string
  | WriteLine writer string
  | MultilineAnswer writer status string
  | MultilineAnswerEnd writer status
  | Disconnect
  | HandleCHMOD string
  | HandleCHOWN string
  | HandleSYMLINK string
  | HandleSTATFile
  | DriverStat string
  | DriverOpenFile string
  | DriverGetHandle string int
  | FileSeek int
  | FileClose

record clientHandler =
  server :: server
  driver :: clientDriver
  param :: string
  conn :: conn
  reader :: reader
  writer :: writer
  controlTLS :: bool
  transferTLS :: bool
  selectedHashAlgo :: HASHAlgo
  user :: string
  clnt :: string
  connectedAt :: int
  events :: "event list"

text \<open>
  What the file takes from the rest of the repository and from the Go library without
  defining it: the table of \<open>getHashMapping\<close> (as the list of its entries in the order a
  \<open>range\<close> visits them; a Go map has each key once), \<open>absPath\<close>, the numbers of the status
  constants, the non-ASCII paths of \<open>strings.ToUpper\<close> and \<open>strings.EqualFold\<close>, the
  cryptographic digests, the clock, and the printing of addresses and durations.
\<close>

record env =
  getHashMapping :: "(string \<times> HASHAlgo) list"
  absPath :: "string \<Rightarrow> string"
  statusCode :: "status \<Rightarrow> nat"
  unicodeToUpper :: "string \<Rightarrow> string"
  unicodeEqualFold :: "string \<Rightarrow> string \<Rightarrow> bool"
  cryptoSum :: "HASHAlgo \<Rightarrow> byte list \<Rightarrow> byte list"
  timeNow :: int
  RemoteAddr :: "conn \<Rightarrow> string"
  durationString :: "int \<Rightarrow> string"

definition emit :: "event \<Rightarrow> clientHandler \<Rightarrow> clientHandler" where
  "emit ev c = c\<lparr>events := events c @ [ev]\<rparr>"

text \<open>Modelled from the spec: \<open>writeMessage\<close>, \<open>writeLine\<close> and \<open>multilineAnswer\<close> are methods
  declared outside this file; each writes one protocol line (or the first and the final
  line of a multi-line block) through the session's buffered writer and flushes it. The
  model records the call with the writer it used.\<close>

definition writeMessage :: "status \<Rightarrow> string \<Rightarrow> clientHandler \<Rightarrow> clientHandler" where
  "writeMessage code message c = emit (WriteMessage (writer c) code message) c"

definition writeLine :: "string \<Rightarrow> clientHandler \<Rightarrow> clientHandler" where
  "writeLine line c = emit (WriteLine (writer c) line) c"

definition multilineAnswer :: "status \<Rightarrow> string \<Rightarrow> clientHandler \<Rightarrow> clientHandler" where
  "multilineAnswer code message c = emit (MultilineAnswer (writer c) code message) c"

definition multilineAnswerEnd :: "status \<Rightarrow> clientHandler \<Rightarrow> clientHandler" where
  "multilineAnswerEnd code c = emit (MultilineAnswerEnd (writer c) code) c"

section \<open>Library functions\<close>

definition CRLF :: string where
  "CRLF = [CHR 0x0D, CHR 0x0A]"

definition int64 :: "int \<Rightarrow> int" where
  "int64 x = (x + 2 ^ 63) mod 2 ^ 64 - 2 ^ 63"

subsection \<open>strings\<close>

text \<open>\<open>strings.SplitN(s, sep, n)\<close> for a one-byte separator and \<open>n \<ge> 0\<close>.\<close>

fun SplitN :: "string \<Rightarrow> char \<Rightarrow> nat \<Rightarrow> string list" where
  "SplitN s sep 0 = []"
| "SplitN s sep (Suc 0) = [s]"
| "SplitN s sep (Suc (Suc n)) =
     (if sep \<in> set s
      then takeWhile (\<lambda>x. x \<noteq> sep) s # SplitN (tl (dropWhile (\<lambda>x. x \<noteq> sep) s)) sep (Suc n)
      else [s])"

definition isASCII :: "string \<Rightarrow> bool" where
  "isASCII s = list_all (\<lambda>x. (of_char x :: nat) < 128) s"

definition toUpperASCII :: "char \<Rightarrow> char" where
  "toUpperASCII x =
     (case map_of (zip ''abcdefghijklmnopqrstuvwxyz'' ''ABCDEFGHIJKLMNOPQRSTUVWXYZ'') x of
        Some u \<Rightarrow> u
      | None \<Rightarrow> x)"

text \<open>\<open>strings.ToUpper\<close>: the ASCII path of the library, and \<open>strings.Map(unicode.ToUpper, s)\<close>
  for a string with a byte outside ASCII.\<close>

definition ToUpper :: "env \<Rightarrow> string \<Rightarrow> string" where
  "ToUpper env s = (if isASCII s then map toUpperASCII s else unicodeToUpper env s)"

text \<open>\<open>strings.EqualFold\<close>: on ASCII strings, equality up to the case of letters.\<close>

definition EqualFold :: "env \<Rightarrow> string \<Rightarrow> string \<Rightarrow> bool" where
  "EqualFold env s t =
     (if isASCII s \<and> isASCII t then map toUpperASCII s = map toUpperASCII t
      else unicodeEqualFold env s t)"

subsection \<open>strconv and fmt\<close>

definition isDigit :: "char \<Rightarrow> bool" where
  "isDigit x = (48 \<le> (of_char x :: nat) \<and> (of_char x :: nat) \<le> 57)"

definition digitsValue :: "string \<Rightarrow> nat" where
  "digitsValue s = foldl (\<lambda>acc x. 10 * acc + (of_char x - 48)) 0 s"

text \<open>\<open>strconv.ParseInt(s, 10, 64)\<close>: an optional sign, then decimal digits only; a value
  outside \<open>int64\<close> is a range error.\<close>

definition ParseInt :: "string \<Rightarrow> go_error + int" where
  "ParseInt s =
     (if s = [] then Inl (NumError s ''invalid syntax'')
      else
        let neg = (hd s = CHR ''-'');
            body = (if hd s = CHR ''+'' \<or> hd s = CHR ''-'' then tl s else s)
        in if body = [] \<or> \<not> list_all isDigit body then Inl (NumError s ''invalid syntax'')
           else if \<not> neg \<and> 2 ^ 63 \<le> digitsValue body then Inl (NumError s ''value out of range'')
           else if neg \<and> 2 ^ 63 < digitsValue body then Inl (NumError s ''value out of range'')
           else Inr (if neg then - int (digitsValue body) else int (digitsValue body)))"

text \<open>Decimal printing (\<open>%d\<close>, and \<open>%v\<close> of an \<open>int64\<close>).\<close>

function utoa :: "nat \<Rightarrow> string" where
  "utoa n = (if n < 10 then [''0123456789'' ! n] else utoa (n div 10) @ [''0123456789'' ! (n mod 10)])"
  by pat_completeness auto
termination
  by (relation "measure (\<lambda>n. n)") auto

definition itoa :: "int \<Rightarrow> string" where
  "itoa i = (if i < 0 then ''-'' @ utoa (nat (- i)) else utoa (nat i))"

subsection \<open>Digest engines\<close>

text \<open>\<open>hash.Hash\<close>: the algorithm and the bytes written so far. \<open>crc32.NewIEEE\<close> is computed
  (reflected polynomial \<open>0xEDB88320\<close>); the cryptographic digests come from \<open>cryptoSum\<close>.\<close>

datatype hash = Hash HASHAlgo "byte list"

fun Write :: "hash \<Rightarrow> byte list \<Rightarrow> hash" where
  "Write (Hash a acc) bs = Hash a (acc @ bs)"

definition crc32_shift :: "32 word \<Rightarrow> 32 word" where
  "crc32_shift x = (if bit x 0 then drop_bit 1 x XOR 0xEDB88320 else drop_bit 1 x)"

definition crc32_update :: "32 word \<Rightarrow> byte \<Rightarrow> 32 word" where
  "crc32_update crc b =
     crc32_shift (crc32_shift (crc32_shift (crc32_shift
       (crc32_shift (crc32_shift (crc32_shift (crc32_shift (crc XOR ucast b))))))))"

definition ChecksumIEEE :: "byte list \<Rightarrow> 32 word" where
  "ChecksumIEEE bs = NOT (foldl crc32_update 0xFFFFFFFF bs)"

fun Sum :: "env \<Rightarrow> hash \<Rightarrow> byte list" where
  "Sum env (Hash HASHAlgoCRC32 bs) =
     (let s = ChecksumIEEE bs
      in [ucast (drop_bit 24 s), ucast (drop_bit 16 s), ucast (drop_bit 8 s), ucast s])"
| "Sum env (Hash a bs) = cryptoSum env a bs"

text \<open>\<open>hex.EncodeToString\<close>.\<close>

definition EncodeToString :: "byte list \<Rightarrow> string" where
  "EncodeToString bs =
     concat (map (\<lambda>b. [''0123456789abcdef'' ! (unat b div 16), ''0123456789abcdef'' ! (unat b mod 16)]) bs)"

subsection \<open>io.CopyN\<close>

text \<open>
  \<open>io.Copy(dst, io.LimitReader(src, n))\<close>: the limited reader answers \<open>io.EOF\<close> once its
  budget \<open>N\<close> is used up and otherwise reads at most \<open>N\<close> bytes into the 32 KiB buffer;
  the loop writes what was read, stops at the first error and reports it unless it is
  \<open>io.EOF\<close>.
\<close>

function copyBuffer :: "hash \<Rightarrow> fileTransfer \<Rightarrow> int \<Rightarrow> int \<Rightarrow> hash \<times> int \<times> go_error option" where
  "copyBuffer h f N written =
     (if N \<le> 0 then (h, written, None)
      else
        (case Read f (nat (min 32768 N)) of
           (bs, er, f') \<Rightarrow>
             (case er of
                None \<Rightarrow>
                  copyBuffer (if bs \<noteq> [] then Write h bs else h) f'
                    (N - int (length bs)) (written + int (length bs))
              | Some e \<Rightarrow>
                  (if bs \<noteq> [] then Write h bs else h, written + int (length bs),
                   if e = EOF then None else Some e))))"
  by pat_completeness auto
termination
  by (relation "measure (\<lambda>(h, f, N, written). nat N)") (auto simp: Read_def split: if_splits)

definition CopyN :: "hash \<Rightarrow> fileTransfer \<Rightarrow> int \<Rightarrow> hash \<times> int \<times> go_error option" where
  "CopyN h f n =
     (case copyBuffer h f n 0 of
        (h', written, err) \<Rightarrow>
          if written = n then (h', n, None)
          else if written < n \<and> err = None then (h', written, Some EOF)
          else (h', written, err))"

section \<open>computeHashForFile\<close>

definition newHash :: "HASHAlgo \<Rightarrow> go_error + hash" where
  "newHash algo =
     (case algo of
        HASHAlgoCRC32 \<Rightarrow> Inr (Hash algo [])
      | HASHAlgoMD5 \<Rightarrow> Inr (Hash algo [])
      | HASHAlgoSHA1 \<Rightarrow> Inr (Hash algo [])
      | HASHAlgoSHA256 \<Rightarrow> Inr (Hash algo [])
      | HASHAlgoSHA512 \<Rightarrow> Inr (Hash algo [])
      | HASHAlgoOther k \<Rightarrow> Inl errUnknowHash)"

text \<open>Lines 356 to 360: the handle comes from \<open>GetHandle\<close> when the driver has the
  extension, from \<open>OpenFile\<close> otherwise.\<close>

definition openHandle :: "clientHandler \<Rightarrow> string \<Rightarrow> int \<Rightarrow> (go_error + fileTransfer) \<times> clientHandler" where
  "openHandle c filePath start =
     (case GetHandle (driver c) of
        Some getHandle \<Rightarrow> (getHandle filePath start, emit (DriverGetHandle filePath start) c)
      | None \<Rightarrow> (OpenFile (driver c) filePath, emit (DriverOpenFile filePath) c))"

text \<open>
  The method does not change the session; the model threads it only to record the driver
  and handle calls. \<open>defer file.Close()\<close> is registered after \<open>io.CopyN\<close> has returned, so
  it runs on the two returns below it and on none above it.
\<close>

definition computeHashForFile ::
  "env \<Rightarrow> clientHandler \<Rightarrow> string \<Rightarrow> HASHAlgo \<Rightarrow> int \<Rightarrow> int \<Rightarrow> (go_error + string) \<times> clientHandler" where
  "computeHashForFile env c filePath algo start end =
     (case newHash algo of
        Inl err \<Rightarrow> (Inl err, c)
      | Inr h \<Rightarrow>
          (case openHandle c filePath start of
             (Inl err, c1) \<Rightarrow> (Inl err, c1)
           | (Inr file, c1) \<Rightarrow>
               (case (if 0 < start then (Seek file start, emit (FileSeek start) c1)
                      else (Inr file, c1)) of
                  (Inl err, c2) \<Rightarrow> (Inl err, c2)
                | (Inr file', c2) \<Rightarrow>
                    (case CopyN h file' (int64 (end - start)) of
                       (h', written, err) \<Rightarrow>
                         (case err of
                            None \<Rightarrow> (Inr (EncodeToString (Sum env h')), emit FileClose c2)
                          | Some e \<Rightarrow>
                              if e \<noteq> EOF then (Inl e, emit FileClose c2)
                              else (Inr (EncodeToString (Sum env h')), emit FileClose c2))))))"

section \<open>The handlers\<close>

text \<open>Every handler returns the \<open>nil\<close> error; the model returns the session it leaves.\<close>

definition handleAUTH :: "clientHandler \<Rightarrow> clientHandler" where
  "handleAUTH c =
     (case GetTLSConfig (server c) of
        (tlsConfig, None) \<Rightarrow>
          (let c = writeMessage StatusAuthAccepted ''AUTH command ok. Expecting TLS Negotiation.'' c;
               c = c\<lparr>conn := TLSServer (conn c) tlsConfig\<rparr>;
               c = c\<lparr>reader := NewReader (conn c)\<rparr>;
               c = c\<lparr>writer := NewWriter (conn c)\<rparr>
           in c\<lparr>controlTLS := True\<rparr>)
      | (tlsConfig, Some err) \<Rightarrow>
          writeMessage StatusActionNotTaken (''Cannot get a TLS config: '' @ Error err) c)"

definition handlePROT :: "clientHandler \<Rightarrow> clientHandler" where
  "handlePROT c = writeMessage StatusOK ''OK'' (c\<lparr>transferTLS := (param c = ''P'')\<rparr>)"

definition handlePBSZ :: "clientHandler \<Rightarrow> clientHandler" where
  "handlePBSZ c = writeMessage StatusOK ''Whatever'' c"

definition handleSYST :: "clientHandler \<Rightarrow> clientHandler" where
  "handleSYST c = writeMessage StatusSystemType ''UNIX Type: L8'' c"

text \<open>Go's \<open>%\<close> truncates towards zero.\<close>

definition goRem :: "int \<Rightarrow> int \<Rightarrow> int" where
  "goRem a b = sgn a * (\<bar>a\<bar> mod \<bar>b\<bar>)"

definition Second :: int where
  "Second = 1000000000"

definition handleSTATServer :: "env \<Rightarrow> clientHandler \<Rightarrow> clientHandler" where
  "handleSTATServer env c =
     (let c = multilineAnswer StatusFileStatus ''Server status'' c;
          duration = timeNow env - connectedAt c;
          duration = duration - goRem duration Second;
          c = writeLine (''Connected to '' @ ListenAddr (settings (server c)) @ '' from ''
                @ RemoteAddr env (conn c) @ '' for '' @ durationString env duration) c;
          c = (if user c \<noteq> [] then writeLine (''Logged in as '' @ user c) c
               else writeLine ''Not logged in yet'' c);
          c = writeLine (Banner (settings (server c))) c
      in multilineAnswerEnd StatusFileStatus c)"

text \<open>\<open>handleSTATFile\<close>, \<open>handleCHMOD\<close>, \<open>handleCHOWN\<close> and \<open>handleSYMLINK\<close> live in other
  files; the model records that they are called, and with which argument.\<close>

definition handleSTAT :: "env \<Rightarrow> clientHandler \<Rightarrow> clientHandler" where
  "handleSTAT env c = (if param c = [] then handleSTATServer env c else emit HandleSTATFile c)"

definition handleSITE :: "env \<Rightarrow> clientHandler \<Rightarrow> clientHandler" where
  "handleSITE env c =
     (if DisableSite (settings (server c))
      then writeMessage StatusSyntaxErrorNotRecognised ''SITE support is disabled'' c
      else
        (let spl = SplitN (param c) CHR '' '' 2
         in if 1 < length spl \<and> ToUpper env (spl ! 0) = ''CHMOD''
            then emit (HandleCHMOD (spl ! 1)) c
            else if 1 < length spl \<and> ToUpper env (spl ! 0) = ''CHOWN''
            then emit (HandleCHOWN (spl ! 1)) c
            else if 1 < length spl \<and> ToUpper env (spl ! 0) = ''SYMLINK''
            then emit (HandleSYMLINK (spl ! 1)) c
            else writeMessage StatusSyntaxErrorNotRecognised ''Not understood SITE subcommand'' c))"

text \<open>The loop \<open>for k, v := range hashMapping { if v == algo { name = k } }\<close>, from the
  empty string.\<close>

definition currentHashName :: "(string \<times> HASHAlgo) list \<Rightarrow> HASHAlgo \<Rightarrow> string" where
  "currentHashName hashMapping algo =
     foldl (\<lambda>name (k, v). if v = algo then k else name) [] hashMapping"

definition handleOPTS :: "env \<Rightarrow> clientHandler \<Rightarrow> clientHandler" where
  "handleOPTS env c =
     (let args = SplitN (param c) CHR '' '' 2
      in if EqualFold env (args ! 0) ''UTF8''
         then writeMessage StatusOK (''I'' @ [CHR 0x27] @ ''m in UTF8 only anyway'') c
         else if EqualFold env (args ! 0) ''HASH'' \<and> EnableHASH (settings (server c))
         then
           (let hashMapping = getHashMapping env
            in if 1 < length args
               then
                 (case map_of hashMapping (args ! 1) of
                    Some v \<Rightarrow> writeMessage StatusOK (args ! 1) (c\<lparr>selectedHashAlgo := v\<rparr>)
                  | None \<Rightarrow>
                      writeMessage StatusSyntaxErrorParameters
                        ''Unknown algorithm, current selection not changed'' c)
               else writeMessage StatusOK (currentHashName hashMapping (selectedHashAlgo c)) c)
         else writeMessage StatusSyntaxErrorNotRecognised
                (''Don'' @ [CHR 0x27] @ ''t know this option'') c)"

definition handleNOOP :: "clientHandler \<Rightarrow> clientHandler" where
  "handleNOOP c = writeMessage StatusOK ''OK'' c"

definition handleCLNT :: "clientHandler \<Rightarrow> clientHandler" where
  "handleCLNT c = writeMessage StatusOK ''Good to know'' (c\<lparr>clnt := param c\<rparr>)"

text \<open>The composite line of \<open>handleFEAT\<close>: each name, a star after it when its algorithm is
  the selected one, a semicolon.\<close>

definition hashLine :: "(string \<times> HASHAlgo) list \<Rightarrow> HASHAlgo \<Rightarrow> string" where
  "hashLine hashMapping selected =
     foldl (\<lambda>line (k, v). line @ k @ (if v = selected then ''*'' else []) @ '';'') []
       hashMapping"

definition nonStandardHashImpl :: "string list" where
  "nonStandardHashImpl = [''XCRC'', ''MD5'', ''XMD5'', ''XSHA'', ''XSHA1'', ''XSHA256'', ''XSHA512'']"

definition features :: "env \<Rightarrow> clientHandler \<Rightarrow> string list" where
  "features env c =
     (let features = [''CLNT'', ''UTF8'', ''SIZE'', ''MDTM'', ''REST STREAM''];
          features = (if \<not> DisableMLSD (settings (server c)) then features @ [''MLSD'']
                      else features);
          features = (if \<not> DisableMLST (settings (server c)) then features @ [''MLST'']
                      else features);
          features = (if \<not> DisableMFMT (settings (server c)) then features @ [''MFMT'']
                      else features);
          features = (case GetTLSConfig (server c) of
                        (Some tlsConfig, None) \<Rightarrow> features @ [''AUTH TLS'']
                      | _ \<Rightarrow> features)
      in if EnableHASH (settings (server c))
         then (features @ [hashLine (getHashMapping env) (selectedHashAlgo c)])
                @ nonStandardHashImpl
         else features)"

text \<open>The deferred \<open>writeMessage(StatusSystemStatus, "end")\<close> runs last.\<close>

definition handleFEAT :: "env \<Rightarrow> clientHandler \<Rightarrow> clientHandler" where
  "handleFEAT env c =
     (let c1 = writeLine (utoa (statusCode env StatusSystemStatus) @ ''- These are my features'') c;
          c2 = foldl (\<lambda>c f. writeLine ('' '' @ f) c) c1 (features env c)
      in writeMessage StatusSystemStatus ''end'' c2)"

text \<open>Lines 261 to 282: the range is the whole file unless the command is one of the
  per-algorithm ones and carries bounds.\<close>

definition parseRange :: "bool \<Rightarrow> string list \<Rightarrow> int \<Rightarrow> (status \<times> string) + (int \<times> int)" where
  "parseRange isCustomMode args sz =
     (case (if isCustomMode \<and> 1 < length args then ParseInt (args ! 1) else Inr 0) of
        Inl err \<Rightarrow>
          Inl (StatusSyntaxErrorParameters,
               ''invalid start offset '' @ args ! 1 @ '': '' @ Error err)
      | Inr start \<Rightarrow>
          (case (if isCustomMode \<and> 2 < length args then ParseInt (args ! 2) else Inr sz) of
             Inl err \<Rightarrow>
               Inl (StatusSyntaxErrorParameters,
                    ''invalid end offset '' @ args ! 2 @ ''2: '' @ Error err)
           | Inr end \<Rightarrow> Inr (start, end)))"

definition handleGenericHash :: "env \<Rightarrow> HASHAlgo \<Rightarrow> bool \<Rightarrow> clientHandler \<Rightarrow> clientHandler" where
  "handleGenericHash env algo isCustomMode c =
     (let args = SplitN (param c) CHR '' '' 3;
          c0 = emit (DriverStat (args ! 0)) c
      in case Stat (driver c) (args ! 0) of
           Inl err \<Rightarrow> writeMessage StatusActionNotTaken (param c @ '': '' @ Error err) c0
         | Inr info \<Rightarrow>
             if \<not> IsRegular info
             then writeMessage StatusActionNotTakenNoFile (param c @ '' is not a regular file'') c0
             else
               (case parseRange isCustomMode args (Size info) of
                  Inl (code, message) \<Rightarrow> writeMessage code message c0
                | Inr (start, end) \<Rightarrow>
                    (case computeHashForFile env c0 (absPath env (args ! 0)) algo start end of
                       (Inl err, c1) \<Rightarrow>
                         writeMessage StatusActionNotTaken (args ! 0 @ '': '' @ Error err) c1
                     | (Inr result, c1) \<Rightarrow>
                         (let hashName = currentHashName (getHashMapping env) algo;
                              firstLine = ''Computing '' @ hashName @ '' digest''
                          in if isCustomMode
                             then writeMessage StatusFileOK (firstLine @ CRLF @ result) c1
                             else writeMessage StatusFileStatus
                                    (firstLine @ CRLF @ hashName @ '' '' @ itoa start @ ''-''
                                      @ itoa end @ '' '' @ result @ '' '' @ args ! 0) c1))))"

definition handleHASH :: "env \<Rightarrow> clientHandler \<Rightarrow> clientHandler" where
  "handleHASH env c = handleGenericHash env (selectedHashAlgo c) False c"

definition handleCRC32 :: "env \<Rightarrow> clientHandler \<Rightarrow> clientHandler" where
  "handleCRC32 env c = handleGenericHash env HASHAlgoCRC32 True c"

definition handleMD5 :: "env \<Rightarrow> clientHandler \<Rightarrow> clientHandler" where
  "handleMD5 env c = handleGenericHash env HASHAlgoMD5 True c"

definition handleSHA1 :: "env \<Rightarrow> clientHandler \<Rightarrow> clientHandler" where
  "handleSHA1 env c = handleGenericHash env HASHAlgoSHA1 True c"

definition handleSHA256 :: "env \<Rightarrow> clientHandler \<Rightarrow> clientHandler" where
  "handleSHA256 env c = handleGenericHash env HASHAlgoSHA256 True c"

definition handleSHA512 :: "env \<Rightarrow> clientHandler \<Rightarrow> clientHandler" where
  "handleSHA512 env c = handleGenericHash env HASHAlgoSHA512 True c"

definition handleTYPE :: "clientHandler \<Rightarrow> clientHandler" where
  "handleTYPE c =
     (if param c = ''I'' then writeMessage StatusOK ''Type set to binary'' c
      else if param c = ''A''
      then writeMessage StatusOK
             (''ASCII isn'' @ [CHR 0x27] @ ''t properly supported: ''
               @ ''https://github.com/fclairamb/ftpserverlib/issues/86'') c
      else writeMessage StatusSyntaxErrorNotRecognised ''Not understood'' c)"

definition handleQUIT :: "clientHandler \<Rightarrow> clientHandler" where
  "handleQUIT c =
     (let c = writeMessage StatusClosingControlConn ''Goodbye'' c;
          c = emit Disconnect c
      in c\<lparr>reader := NilReader\<rparr>)"

section \<open>Sessions\<close>

text \<open>One constructor for each handler of the file, named after it.\<close>

datatype handler =
    CmdAUTH | CmdPROT | CmdPBSZ | CmdSYST | CmdSTAT | CmdSTATServer | CmdSITE | CmdOPTS
  | CmdNOOP | CmdCLNT | CmdFEAT | CmdHASH | CmdCRC32 | CmdMD5 | CmdSHA1 | CmdSHA256 | CmdSHA512 | CmdTYPE | CmdQUIT

fun handle :: "env \<Rightarrow> handler \<Rightarrow> clientHandler \<Rightarrow> clientHandler" where
  "handle env CmdAUTH c = handleAUTH c"
| "handle env CmdPROT c = handlePROT c"
| "handle env CmdPBSZ c = handlePBSZ c"
| "handle env CmdSYST c = handleSYST c"
| "handle env CmdSTAT c = handleSTAT env c"
| "handle env CmdSTATServer c = handleSTATServer env c"
| "handle env CmdSITE c = handleSITE env c"
| "handle env CmdOPTS c = handleOPTS env c"
| "handle env CmdNOOP c = handleNOOP c"
| "handle env CmdCLNT c = handleCLNT c"
| "handle env CmdFEAT c = handleFEAT env c"
| "handle env CmdHASH c = handleHASH env c"
| "handle env CmdCRC32 c = handleCRC32 env c"
| "handle env CmdMD5 c = handleMD5 env c"
| "handle env CmdSHA1 c = handleSHA1 env c"
| "handle env CmdSHA256 c = handleSHA256 env c"
| "handle env CmdSHA512 c = handleSHA512 env c"
| "handle env CmdTYPE c = handleTYPE c"
| "handle env CmdQUIT c = handleQUIT c"

text \<open>
  The dispatcher is outside this file. A call of a handler is described by what the
  dispatcher and the world supply to it: the parameter of the command, the answers the
  server and the driver give at that moment, and the environment.
\<close>

record call =
  callEnv :: env
  callServer :: server
  callDriver :: clientDriver
  callParam :: string
  callHandler :: handler

definition dispatch :: "call \<Rightarrow> clientHandler \<Rightarrow> clientHandler" where
  "dispatch k c =
     handle (callEnv k) (callHandler k)
       (c\<lparr>server := callServer k, driver := callDriver k, param := callParam k\<rparr>)"

text \<open>The sessions a connection goes through: the initial one, then the one after each call.\<close>

fun sessions :: "clientHandler \<Rightarrow> call list \<Rightarrow> clientHandler list" where
  "sessions c [] = [c]"
| "sessions c (k # ks) = c # sessions (dispatch k c) ks"

text \<open>The number of steps from \<open>False\<close> to \<open>True\<close>, and from \<open>True\<close> to \<open>False\<close>, in a
  sequence of flags.\<close>

fun upgrades :: "bool list \<Rightarrow> nat" where
  "upgrades (a # b # bs) = (if \<not> a \<and> b then 1 else 0) + upgrades (b # bs)"
| "upgrades bs = 0"

fun reverts :: "bool list \<Rightarrow> nat" where
  "reverts (a # b # bs) = (if a \<and> \<not> b then 1 else 0) + reverts (b # bs)"
| "reverts bs = 0"

text \<open>The events of one kind among the events a call added.\<close>

definition closes :: "event list \<Rightarrow> nat" where
  "closes evs = length (filter (\<lambda>ev. ev = FileClose) evs)"

definition seeks :: "event list \<Rightarrow> int list" where
  "seeks evs = concat (map (\<lambda>ev. case ev of FileSeek n \<Rightarrow> [n] | _ \<Rightarrow> []) evs)"

definition opens :: "event list \<Rightarrow> event list" where
  "opens evs =
     filter (\<lambda>ev. case ev of DriverOpenFile p \<Rightarrow> True | DriverGetHandle p n \<Rightarrow> True | _ \<Rightarrow> False) evs"

text \<open>The bytes a handle delivers from its read position on, and the error that ends the
  stream after them.\<close>

definition remaining :: "fileTransfer \<Rightarrow> byte list" where
  "remaining f = drop (offset f) (content f)"

definition ending :: "fileTransfer \<Rightarrow> go_error" where
  "ending f = (case readError f of None \<Rightarrow> EOF | Some e \<Rightarrow> e)"

text \<open>The handle as \<open>io.CopyN\<close> finds it: moved to \<open>start\<close> when \<open>start > 0\<close>.\<close>

definition positioned :: "fileTransfer \<Rightarrow> int \<Rightarrow> fileTransfer" where
  "positioned f start = (if 0 < start then f\<lparr>offset := nat start\<rparr> else f)"

text \<open>The event \<open>openHandle\<close> records, and the events a call added to a session.\<close>

definition openEvent :: "clientHandler \<Rightarrow> string \<Rightarrow> int \<Rightarrow> event" where
  "openEvent c filePath start =
     (case GetHandle (driver c) of
        Some getHandle \<Rightarrow> DriverGetHandle filePath start
      | None \<Rightarrow> DriverOpenFile filePath)"

definition added :: "clientHandler \<Rightarrow> clientHandler \<Rightarrow> event list" where
  "added c c' = drop (length (events c)) (events c')"

section \<open>Sample data for the closed examples\<close>

text \<open>
  A table with five names, status numbers after RFC 959, a five-byte file holding
  \<open>hello\<close>, and drivers around it. The examples use ASCII text and CRC-32 only, so the
  Unicode and cryptographic fields of the sample environment are never consulted.
\<close>

definition sampleMapping :: "(string \<times> HASHAlgo) list" where
  "sampleMapping =
     [(''CRC32'', HASHAlgoCRC32), (''MD5'', HASHAlgoMD5), (''SHA-1'', HASHAlgoSHA1),
      (''SHA-256'', HASHAlgoSHA256), (''SHA-512'', HASHAlgoSHA512)]"

definition sampleCode :: "status \<Rightarrow> nat" where
  "sampleCode s =
     (case s of
        StatusAuthAccepted \<Rightarrow> 234 | StatusActionNotTaken \<Rightarrow> 550
      | StatusActionNotTakenNoFile \<Rightarrow> 550 | StatusOK \<Rightarrow> 200 | StatusSystemType \<Rightarrow> 215
      | StatusSystemStatus \<Rightarrow> 211 | StatusSyntaxErrorNotRecognised \<Rightarrow> 500
      | StatusSyntaxErrorParameters \<Rightarrow> 501 | StatusFileStatus \<Rightarrow> 213 | StatusFileOK \<Rightarrow> 250
      | StatusClosingControlConn \<Rightarrow> 221)"

definition sampleEnv :: env where
  "sampleEnv =
     \<lparr>getHashMapping = sampleMapping, absPath = (\<lambda>p. ''/'' @ p), statusCode = sampleCode,
      unicodeToUpper = (\<lambda>s. s), unicodeEqualFold = (\<lambda>s t. False), cryptoSum = (\<lambda>a bs. []),
      timeNow = 0, RemoteAddr = (\<lambda>x. ''peer''), durationString = (\<lambda>d. ''0s'')\<rparr>"

definition helloFile :: fileTransfer where
  "helloFile = \<lparr>content = [104, 101, 108, 108, 111], offset = 0, seekError = None, readError = None\<rparr>"

definition sampleDriver :: clientDriver where
  "sampleDriver =
     \<lparr>Stat = (\<lambda>p. if p = ''hello.txt'' then Inr \<lparr>IsRegular = True, Size = 5\<rparr>
                  else if p = ''dir'' then Inr \<lparr>IsRegular = False, Size = 0\<rparr>
                  else Inl (DriverError ''file does not exist'')),
      OpenFile = (\<lambda>p. if p = ''/hello.txt'' then Inr helloFile
                      else Inl (DriverError ''file does not exist'')),
      GetHandle = None\<rparr>"

definition offsetDriver :: clientDriver where
  "offsetDriver =
     sampleDriver\<lparr>GetHandle :=
       Some (\<lambda>p start. if p = ''/hello.txt'' then Inr (helloFile\<lparr>offset := nat start\<rparr>)
                        else Inl (DriverError ''file does not exist''))\<rparr>"

definition noSeekDriver :: clientDriver where
  "noSeekDriver =
     sampleDriver\<lparr>OpenFile :=
       (\<lambda>p. Inr (helloFile\<lparr>seekError := Some (DriverError ''illegal seek'')\<rparr>))\<rparr>"

definition faultyDriver :: clientDriver where
  "faultyDriver =
     sampleDriver\<lparr>OpenFile :=
       (\<lambda>p. Inr (helloFile\<lparr>readError := Some (DriverError ''input/output error'')\<rparr>))\<rparr>"

definition sampleSettings :: settings where
  "sampleSettings =
     \<lparr>DisableSite = False, EnableHASH = True, DisableMLSD = False, DisableMLST = False,
      DisableMFMT = False, ListenAddr = ''0.0.0.0:2121'', Banner = ''ftpserver''\<rparr>"

definition tlsServer :: server where
  "tlsServer = \<lparr>settings = sampleSettings, GetTLSConfig = (Some (TLSConfig ''cert''), None)\<rparr>"

definition plainServer :: server where
  "plainServer =
     \<lparr>settings = sampleSettings, GetTLSConfig = (None, Some (DriverError ''no certificate''))\<rparr>"

text \<open>A server whose driver returns neither a configuration nor an error.\<close>

definition nilConfigServer :: server where
  "nilConfigServer = \<lparr>settings = sampleSettings, GetTLSConfig = (None, None)\<rparr>"

definition sampleSession :: clientHandler where
  "sampleSession =
     \<lparr>server = tlsServer, driver = sampleDriver, param = [], conn = NetConn ''peer'',
      reader = NewReader (NetConn ''peer''), writer = NewWriter (NetConn ''peer''),
      controlTLS = False, transferTLS = False, selectedHashAlgo = HASHAlgoSHA256,
      user = [], clnt = [], connectedAt = 0, events = []\<rparr>"

text \<open>Five calls on one connection: \<open>AUTH\<close> while the driver has no certificate, \<open>AUTH\<close>
  once it has one, \<open>PROT\<close>, \<open>AUTH\<close> again, \<open>QUIT\<close>.\<close>

definition sampleCalls :: "call list" where
  "sampleCalls =
     [\<lparr>callEnv = sampleEnv, callServer = plainServer, callDriver = sampleDriver,
       callParam = ''TLS'', callHandler = CmdAUTH\<rparr>,
      \<lparr>callEnv = sampleEnv, callServer = tlsServer, callDriver = sampleDriver,
       callParam = ''TLS'', callHandler = CmdAUTH\<rparr>,
      \<lparr>callEnv = sampleEnv, callServer = tlsServer, callDriver = sampleDriver,
       callParam = ''P'', callHandler = CmdPROT\<rparr>,
      \<lparr>callEnv = sampleEnv, callServer = tlsServer, callDriver = sampleDriver,
       callParam = ''TLS'', callHandler = CmdAUTH\<rparr>,
      \<lparr>callEnv = sampleEnv, callServer = plainServer, callDriver = sampleDriver,
       callParam = [], callHandler = CmdQUIT\<rparr>]"

section \<open>The copy loop\<close>

declare copyBuffer.simps [simp del]

lemma Write_Nil: "Write h [] = h"
  by (cases h) simp

lemma Write_Write: "Write (Write h xs) ys = Write h (xs @ ys)"
  by (cases h) simp

lemma take_split_chunk:
  assumes "k \<le> n"
  shows "take k xs @ take (n - length (take k xs)) (drop (length (take k xs)) xs) = take n xs"
proof (cases "k \<le> length xs")
  case True
  then have "length (take k xs) = k" by simp
  then show ?thesis using assms
    by (metis le_add_diff_inverse take_add)
next
  case False
  then show ?thesis using assms by simp
qed

text \<open>The loop hands the digest engine the first \<open>N\<close> bytes the handle still delivers, or
  all of them when fewer are left, and reports a fault only when the stream ends early
  with an error that is not \<open>io.EOF\<close>.\<close>

lemma copyBuffer_eq:
  "copyBuffer h f N w =
     (Write h (take (nat N) (remaining f)),
      w + int (length (take (nat N) (remaining f))),
      if length (remaining f) < nat N \<and> ending f \<noteq> EOF then Some (ending f) else None)"
proof (induction h f N w rule: copyBuffer.induct)
  case (1 h f N written)
  show ?case
  proof (cases "N \<le> 0")
    case True
    then show ?thesis by (subst copyBuffer.simps) (simp add: Write_Nil)
  next
    case pos: False
    show ?thesis
    proof (cases "length (content f) \<le> offset f")
      case True
      then have "remaining f = []" by (simp add: remaining_def)
      with pos True show ?thesis
        by (subst copyBuffer.simps) (auto simp: Read_def Write_Nil ending_def split: option.splits)
    next
      case False
      define k where "k = nat (min 32768 N)"
      define bs where "bs = take k (remaining f)"
      define f' where "f' = f\<lparr>offset := offset f + length bs\<rparr>"
      have k: "0 < k" "k \<le> nat N" using pos by (auto simp: k_def)
      have rd: "Read f (nat (min 32768 N)) = (bs, None, f')"
        using False by (simp add: Read_def bs_def f'_def k_def remaining_def)
      have ne: "bs \<noteq> []" using False k by (auto simp: bs_def remaining_def)
      have rem': "remaining f' = drop (length bs) (remaining f)"
        by (simp add: remaining_def f'_def add.commute)
      have end': "ending f' = ending f" by (simp add: ending_def f'_def)
      have len: "length bs \<le> k" by (simp add: bs_def)
      have IH: "copyBuffer (Write h bs) f' (N - int (length bs)) (written + int (length bs)) =
         (Write (Write h bs) (take (nat (N - int (length bs))) (remaining f')),
          written + int (length bs) + int (length (take (nat (N - int (length bs))) (remaining f'))),
          if length (remaining f') < nat (N - int (length bs)) \<and> ending f' \<noteq> EOF
          then Some (ending f') else None)"
        using "1.IH"[OF pos rd[symmetric] refl refl] ne by simp
      have n1: "nat (N - int (length bs)) = nat N - length bs" by simp
      have tk: "bs @ take (nat N - length bs) (drop (length bs) (remaining f)) = take (nat N) (remaining f)"
        unfolding bs_def using take_split_chunk[OF k(2)] .
      have lt: "(length (remaining f) - length bs < nat N - length bs) = (length (remaining f) < nat N)"
        using len k by (auto simp: bs_def)
      have step: "copyBuffer h f N written =
            copyBuffer (Write h bs) f' (N - int (length bs)) (written + int (length bs))"
        using pos ne by (subst copyBuffer.simps) (simp add: rd)
      have a: "Write (Write h bs) (take (nat (N - int (length bs))) (remaining f')) =
               Write h (take (nat N) (remaining f))"
        unfolding Write_Write rem' n1 tk ..
      have b: "written + int (length bs) + int (length (take (nat (N - int (length bs))) (remaining f'))) =
               written + int (length (take (nat N) (remaining f)))"
        unfolding rem' n1 tk[symmetric] by simp
      have c: "(length (remaining f') < nat (N - int (length bs))) = (length (remaining f) < nat N)"
        unfolding rem' n1 using lt by simp
      show ?thesis
        unfolding step IH a b c end' ..
    qed
  qed
qed

text \<open>\<open>io.CopyN\<close> turns a stream that ends before \<open>n\<close> bytes into an error: \<open>io.EOF\<close> when
  the stream just ended, the fault otherwise. A negative \<open>n\<close> copies nothing and is no
  error.\<close>

lemma CopyN_eq:
  "CopyN h f n =
     (Write h (take (nat n) (remaining f)),
      (if int (length (remaining f)) < n then int (length (remaining f)) else if n < 0 then 0 else n),
      if int (length (remaining f)) < n then Some (ending f) else None)"
  by (auto simp: CopyN_def copyBuffer_eq min_def)

section \<open>Properties of computeHashForFile\<close>

lemma newHash_Inr: "newHash algo = Inr h \<Longrightarrow> h = Hash algo []"
  by (auto simp: newHash_def split: HASHAlgo.splits)

lemma newHash_Inl: "newHash algo = Inl e \<Longrightarrow> e = errUnknowHash"
  by (auto simp: newHash_def split: HASHAlgo.splits)

lemma snd_openHandle: "snd (openHandle c p start) = emit (openEvent c p start) c"
  by (simp add: openHandle_def openEvent_def split: option.splits)

lemma computeHashForFile_unknown:
  "newHash algo = Inl e \<Longrightarrow> computeHashForFile env c p algo start end = (Inl e, c)"
  by (simp add: computeHashForFile_def)

lemma computeHashForFile_open_failed:
  "newHash algo = Inr h \<Longrightarrow> fst (openHandle c p start) = Inl e \<Longrightarrow>
   computeHashForFile env c p algo start end = (Inl e, emit (openEvent c p start) c)"
  using snd_openHandle[of c p start]
  by (cases "openHandle c p start") (simp add: computeHashForFile_def)

lemma computeHashForFile_seek_failed:
  "newHash algo = Inr h \<Longrightarrow> fst (openHandle c p start) = Inr file \<Longrightarrow> 0 < start \<Longrightarrow>
   seekError file = Some e \<Longrightarrow>
   computeHashForFile env c p algo start end =
     (Inl e, emit (FileSeek start) (emit (openEvent c p start) c))"
  using snd_openHandle[of c p start]
  by (cases "openHandle c p start") (simp add: computeHashForFile_def Seek_def)

lemma computeHashForFile_copied:
  assumes "newHash algo = Inr h" and "fst (openHandle c p start) = Inr file"
    and "0 < start \<longrightarrow> seekError file = None"
  shows "computeHashForFile env c p algo start end =
     (if int (length (remaining (positioned file start))) < int64 (end - start)
         \<and> ending (positioned file start) \<noteq> EOF
      then Inl (ending (positioned file start))
      else Inr (EncodeToString (Sum env
             (Hash algo (take (nat (int64 (end - start))) (remaining (positioned file start)))))),
      emit FileClose
        (if 0 < start then emit (FileSeek start) (emit (openEvent c p start) c)
         else emit (openEvent c p start) c))"
proof -
  have h: "h = Hash algo []" using assms(1) by (rule newHash_Inr)
  obtain c1 where o: "openHandle c p start = (Inr file, c1)"
    using assms(2) by (cases "openHandle c p start") simp
  have c1: "c1 = emit (openEvent c p start) c"
    using snd_openHandle[of c p start] o by simp
  show ?thesis
  proof (cases "0 < start")
    case True
    then have "Seek file start = Inr (positioned file start)"
      using assms(3) by (simp add: Seek_def positioned_def)
    then show ?thesis using True assms(1) o c1 h
      by (simp add: computeHashForFile_def CopyN_eq)
  next
    case False
    then have "positioned file start = file" by (simp add: positioned_def)
    then show ?thesis using False assms(1) o c1 h
      by (simp add: computeHashForFile_def CopyN_eq)
  qed
qed


lemmas sample_defs =
  sampleSession_def sampleDriver_def offsetDriver_def noSeekDriver_def faultyDriver_def
  helloFile_def sampleEnv_def sampleMapping_def tlsServer_def plainServer_def sampleSettings_def




text \<open>
  C2 fails on the seek path: the driver opens the file, \<open>Seek\<close> fails, and the method
  returns the seek error with the handle still open (no \<open>FileClose\<close> among the events).
\<close>

theorem computeHashForFile_seek_failure_leaves_handle_open:
  "fst (computeHashForFile sampleEnv (sampleSession\<lparr>driver := noSeekDriver\<rparr>) ''/hello.txt''
          HASHAlgoCRC32 1 4) = Inl (DriverError ''illegal seek'')
   \<and> events (snd (computeHashForFile sampleEnv (sampleSession\<lparr>driver := noSeekDriver\<rparr>)
          ''/hello.txt'' HASHAlgoCRC32 1 4)) = [DriverOpenFile ''/hello.txt'', FileSeek 1]
   \<and> closes (events (snd (computeHashForFile sampleEnv (sampleSession\<lparr>driver := noSeekDriver\<rparr>)
          ''/hello.txt'' HASHAlgoCRC32 1 4))) = 0"
  by (simp add: computeHashForFile_def newHash_def openHandle_def sampleSession_def sampleDriver_def
      noSeekDriver_def helloFile_def Seek_def emit_def closes_def)

lemmas io_defs = emit_def writeMessage_def writeLine_def multilineAnswer_def multilineAnswerEnd_def

lemma added_emit1: "added c (emit a c) = [a]"
  by (simp add: added_def emit_def)

lemma added_emit2: "added c (emit b (emit a c)) = [a, b]"
  by (simp add: added_def emit_def)

lemma added_emit3: "added c (emit d (emit b (emit a c))) = [a, b, d]"
  by (simp add: added_def emit_def)

lemma fst_openHandle:
  "fst (openHandle c p start) =
     (case GetHandle (driver c) of Some getHandle \<Rightarrow> getHandle p start | None \<Rightarrow> OpenFile (driver c) p)"
  by (simp add: openHandle_def split: option.splits)

lemma opens_openEvent: "opens (openEvent c p start # evs) = openEvent c p start # opens evs"
  by (simp add: opens_def openEvent_def split: option.splits)

lemma seeks_openEvent: "seeks (openEvent c p start # evs) = seeks evs"
  by (simp add: seeks_def openEvent_def split: option.splits)

lemma closes_openEvent: "closes (openEvent c p start # evs) = closes evs"
  by (simp add: closes_def openEvent_def split: option.splits)

text \<open>Where the deferred \<open>Close\<close> runs: once on every path that gets past the seek, and
  not at all when the seek fails.\<close>

lemma computeHashForFile_closes:
  assumes "newHash algo = Inr h" and "fst (openHandle c p start) = Inr fl"
  shows "closes (added c (snd (computeHashForFile env c p algo start end))) =
           (if 0 < start \<and> seekError fl \<noteq> None then 0 else 1)"
proof (cases "0 < start \<and> seekError fl \<noteq> None")
  case True
  then obtain e where e: "seekError fl = Some e" and pos: "0 < start" by auto
  show ?thesis
    using True
    by (simp add: computeHashForFile_seek_failed[OF assms pos e] added_emit2 closes_openEvent)
       (simp add: closes_def)
next
  case False
  then have sk: "0 < start \<longrightarrow> seekError fl = None" by auto
  show ?thesis
    using False
    by (simp add: computeHashForFile_copied[OF assms sk] added_emit2 added_emit3 closes_openEvent)
       (simp add: closes_def)
qed

text \<open>
  C4, as the code has it. For a supported algorithm the handle is asked of \<open>GetHandle\<close>,
  with \<open>start\<close>, when the driver has the extension, and of \<open>OpenFile\<close> otherwise; it is
  opened once. Once a handle is obtained the code seeks to \<open>start\<close> exactly when
  \<open>start > 0\<close>, whichever way the handle was obtained.
\<close>

theorem computeHashForFile_open_then_seek:
  assumes "newHash algo = Inr h"
  shows "fst (openHandle c filePath start) =
           (case GetHandle (driver c) of
              Some getHandle \<Rightarrow> getHandle filePath start
            | None \<Rightarrow> OpenFile (driver c) filePath)
       \<and> opens (added c (snd (computeHashForFile env c filePath algo start end))) =
           [case GetHandle (driver c) of
              Some getHandle \<Rightarrow> DriverGetHandle filePath start
            | None \<Rightarrow> DriverOpenFile filePath]
       \<and> (\<forall>file. fst (openHandle c filePath start) = Inr file \<longrightarrow>
            seeks (added c (snd (computeHashForFile env c filePath algo start end))) =
              (if 0 < start then [start] else []))"
proof (intro conjI allI impI)
  show "fst (openHandle c filePath start) =
           (case GetHandle (driver c) of
              Some getHandle \<Rightarrow> getHandle filePath start
            | None \<Rightarrow> OpenFile (driver c) filePath)"
    by (rule fst_openHandle)
next
  have ev: "(case GetHandle (driver c) of
              Some getHandle \<Rightarrow> DriverGetHandle filePath start
            | None \<Rightarrow> DriverOpenFile filePath) = openEvent c filePath start"
    by (simp add: openEvent_def)
  show "opens (added c (snd (computeHashForFile env c filePath algo start end))) =
           [case GetHandle (driver c) of
              Some getHandle \<Rightarrow> DriverGetHandle filePath start
            | None \<Rightarrow> DriverOpenFile filePath]"
    unfolding ev
  proof (cases "fst (openHandle c filePath start)")
    case (Inl e)
    show "opens (added c (snd (computeHashForFile env c filePath algo start end))) =
          [openEvent c filePath start]"
      by (simp add: computeHashForFile_open_failed[OF assms Inl] added_emit1 opens_openEvent)
         (simp add: opens_def)
  next
    case (Inr fl)
    show "opens (added c (snd (computeHashForFile env c filePath algo start end))) =
          [openEvent c filePath start]"
    proof (cases "0 < start \<and> seekError fl \<noteq> None")
      case True
      then obtain e where e: "seekError fl = Some e" by auto
      show ?thesis using True
        by (simp add: computeHashForFile_seek_failed[OF assms Inr _ e] added_emit2 opens_openEvent)
           (simp add: opens_def)
    next
      case False
      then have sk: "0 < start \<longrightarrow> seekError fl = None" by auto
      show ?thesis
        by (simp add: computeHashForFile_copied[OF assms Inr sk] added_emit2 added_emit3 opens_openEvent)
           (simp add: opens_def)
    qed
  qed
next
  fix fl
  assume Inr: "fst (openHandle c filePath start) = Inr fl"
  show "seeks (added c (snd (computeHashForFile env c filePath algo start end))) =
              (if 0 < start then [start] else [])"
  proof (cases "0 < start \<and> seekError fl \<noteq> None")
    case True
    then obtain e where e: "seekError fl = Some e" by auto
    show ?thesis using True
      by (simp add: computeHashForFile_seek_failed[OF assms Inr _ e] added_emit2 seeks_openEvent)
         (simp add: seeks_def)
  next
    case False
    then have sk: "0 < start \<longrightarrow> seekError fl = None" by auto
    show ?thesis
      by (simp add: computeHashForFile_copied[OF assms Inr sk] added_emit2 added_emit3 seeks_openEvent)
         (simp add: seeks_def)
  qed
qed

text \<open>C4 as stated fails: with a driver that has the extension and \<open>start = 1\<close> the code
  calls \<open>GetHandle\<close> and then seeks all the same.\<close>

theorem computeHashForFile_seeks_after_GetHandle:
  "GetHandle (driver (sampleSession\<lparr>driver := offsetDriver\<rparr>)) \<noteq> None \<and>
   added (sampleSession\<lparr>driver := offsetDriver\<rparr>)
     (snd (computeHashForFile sampleEnv (sampleSession\<lparr>driver := offsetDriver\<rparr>) ''/hello.txt''
        HASHAlgoCRC32 1 4)) =
     [DriverGetHandle ''/hello.txt'' 1, FileSeek 1, FileClose]"
  by (simp add: computeHashForFile_def newHash_def openHandle_def sampleSession_def sampleDriver_def
      offsetDriver_def helloFile_def Seek_def emit_def CopyN_eq added_def)



lemma SplitN_2: "SplitN s sep 2 =
  (if sep \<in> set s then [takeWhile (\<lambda>x. x \<noteq> sep) s, tl (dropWhile (\<lambda>x. x \<noteq> sep) s)] else [s])"
  by (simp add: numeral_2_eq_2)

lemma SplitN_3: "SplitN s sep 3 =
  (if sep \<in> set s
   then takeWhile (\<lambda>x. x \<noteq> sep) s # SplitN (tl (dropWhile (\<lambda>x. x \<noteq> sep) s)) sep 2
   else [s])"
  by (simp add: numeral_3_eq_3 numeral_2_eq_2)

section \<open>The hash commands\<close>

text \<open>
  C8. For each of the six hash commands: when \<open>Stat\<close> of the first token fails, the
  handler writes \<open>StatusActionNotTaken\<close> with the parameter and the error; when \<open>Stat\<close>
  succeeds and the path is not a regular file, it writes \<open>StatusActionNotTakenNoFile\<close>.
  In both cases the session is otherwise unchanged and its only events are the \<open>Stat\<close>
  call and the reply: no handle is opened and nothing is hashed.
\<close>

theorem hash_commands_preflight:
  assumes "h \<in> {CmdHASH, CmdCRC32, CmdMD5, CmdSHA1, CmdSHA256, CmdSHA512}"
  shows "(\<forall>err. Stat (driver c) (SplitN (param c) CHR '' '' 3 ! 0) = Inl err \<longrightarrow>
            handle env h c =
              c\<lparr>events := events c @
                [DriverStat (SplitN (param c) CHR '' '' 3 ! 0),
                 WriteMessage (writer c) StatusActionNotTaken (param c @ '': '' @ Error err)]\<rparr>)
       \<and> (\<forall>info. Stat (driver c) (SplitN (param c) CHR '' '' 3 ! 0) = Inr info \<and> \<not> IsRegular info \<longrightarrow>
            handle env h c =
              c\<lparr>events := events c @
                [DriverStat (SplitN (param c) CHR '' '' 3 ! 0),
                 WriteMessage (writer c) StatusActionNotTakenNoFile
                   (param c @ '' is not a regular file'')]\<rparr>)"
proof -
  have a: "handleGenericHash env algo m c =
              c\<lparr>events := events c @
                [DriverStat (SplitN (param c) CHR '' '' 3 ! 0),
                 WriteMessage (writer c) StatusActionNotTaken (param c @ '': '' @ Error err)]\<rparr>"
    if "Stat (driver c) (SplitN (param c) CHR '' '' 3 ! 0) = Inl err" for algo m err
    using that by (simp add: handleGenericHash_def Let_def io_defs)
  have b: "handleGenericHash env algo m c =
              c\<lparr>events := events c @
                [DriverStat (SplitN (param c) CHR '' '' 3 ! 0),
                 WriteMessage (writer c) StatusActionNotTakenNoFile
                   (param c @ '' is not a regular file'')]\<rparr>"
    if "Stat (driver c) (SplitN (param c) CHR '' '' 3 ! 0) = Inr info" "\<not> IsRegular info"
    for algo m info
    using that by (simp add: handleGenericHash_def Let_def io_defs)
  from assms show ?thesis
    by (auto simp: handleHASH_def handleCRC32_def handleMD5_def handleSHA1_def handleSHA256_def
        handleSHA512_def a b)
qed






text \<open>Without the extension and from \<open>start = 2\<close>: one \<open>OpenFile\<close>, one seek to 2.\<close>

theorem computeHashForFile_open_then_seek_witness:
  "opens (added sampleSession
       (snd (computeHashForFile sampleEnv sampleSession ''/hello.txt'' HASHAlgoCRC32 2 5))) =
     [DriverOpenFile ''/hello.txt'']
   \<and> seeks (added sampleSession
       (snd (computeHashForFile sampleEnv sampleSession ''/hello.txt'' HASHAlgoCRC32 2 5))) = [2]"
proof -
  have a: "newHash HASHAlgoCRC32 = Inr (Hash HASHAlgoCRC32 [])" by (simp add: newHash_def)
  have b: "fst (openHandle sampleSession ''/hello.txt'' 2) = Inr helloFile"
    by (simp add: fst_openHandle sampleSession_def sampleDriver_def)
  have g: "GetHandle (driver sampleSession) = None"
    by (simp add: sampleSession_def sampleDriver_def)
  from computeHashForFile_open_then_seek[OF a, of sampleSession "''/hello.txt''" 2 sampleEnv 5] b g show ?thesis
    by simp
qed

text \<open>A missing path under the SHA-256 command, and a directory under \<open>HASH\<close>.\<close>

theorem hash_commands_preflight_witness:
  "handle sampleEnv CmdSHA256 (sampleSession\<lparr>param := ''missing.txt''\<rparr>) =
     sampleSession\<lparr>param := ''missing.txt'',
       events := [DriverStat ''missing.txt'',
         WriteMessage (NewWriter (NetConn ''peer'')) StatusActionNotTaken
           ''missing.txt: file does not exist'']\<rparr>
   \<and> handle sampleEnv CmdHASH (sampleSession\<lparr>param := ''dir''\<rparr>) =
     sampleSession\<lparr>param := ''dir'',
       events := [DriverStat ''dir'',
         WriteMessage (NewWriter (NetConn ''peer'')) StatusActionNotTakenNoFile
           ''dir is not a regular file'']\<rparr>"
proof -
  let ?c1 = "sampleSession\<lparr>param := ''missing.txt''\<rparr>"
  let ?c2 = "sampleSession\<lparr>param := ''dir''\<rparr>"
  have m1: "CmdSHA256 \<in> {CmdHASH, CmdCRC32, CmdMD5, CmdSHA1, CmdSHA256, CmdSHA512}" by simp
  have m2: "CmdHASH \<in> {CmdHASH, CmdCRC32, CmdMD5, CmdSHA1, CmdSHA256, CmdSHA512}" by simp
  have s1: "Stat (driver ?c1) (SplitN (param ?c1) CHR '' '' 3 ! 0) = Inl (DriverError ''file does not exist'')"
    by (simp add: SplitN_3 sampleSession_def sampleDriver_def)
  have s2: "Stat (driver ?c2) (SplitN (param ?c2) CHR '' '' 3 ! 0) = Inr \<lparr>IsRegular = False, Size = 0\<rparr>
            \<and> \<not> IsRegular \<lparr>IsRegular = False, Size = 0\<rparr>"
    by (simp add: SplitN_3 sampleSession_def sampleDriver_def)
  have r1: "handle sampleEnv CmdSHA256 ?c1 =
      ?c1\<lparr>events := events ?c1 @
                [DriverStat (SplitN (param ?c1) CHR '' '' 3 ! 0),
                 WriteMessage (writer ?c1) StatusActionNotTaken
                   (param ?c1 @ '': '' @ Error (DriverError ''file does not exist''))]\<rparr>"
    using hash_commands_preflight[OF m1, of ?c1 sampleEnv] s1 by blast
  have r2: "handle sampleEnv CmdHASH ?c2 =
      ?c2\<lparr>events := events ?c2 @
                [DriverStat (SplitN (param ?c2) CHR '' '' 3 ! 0),
                 WriteMessage (writer ?c2) StatusActionNotTakenNoFile
                   (param ?c2 @ '' is not a regular file'')]\<rparr>"
    using hash_commands_preflight[OF m2, of ?c2 sampleEnv] s2 by blast
  show ?thesis
    unfolding r1 r2 by (simp add: SplitN_3 sampleSession_def)
qed

section \<open>SITE\<close>

lemma takeWhile_token:
  "sep \<notin> set tok \<Longrightarrow> takeWhile (\<lambda>x. x \<noteq> sep) (tok @ sep # rest) = tok"
  by (induction tok) auto

lemma dropWhile_token:
  "sep \<notin> set tok \<Longrightarrow> dropWhile (\<lambda>x. x \<noteq> sep) (tok @ sep # rest) = sep # rest"
  by (induction tok) auto

lemma SplitN_2_token:
  "sep \<notin> set tok \<Longrightarrow> SplitN (tok @ sep # rest) sep 2 = [tok, rest]"
  by (simp add: SplitN_2 takeWhile_token dropWhile_token)

lemma SplitN_2_single: "sep \<notin> set s \<Longrightarrow> SplitN s sep 2 = [s]"
  by (simp add: SplitN_2)

text \<open>
  C10, as the code has it. With SITE support not disabled: when the parameter has a space
  after its first token, the token's upper-case form selects the handler (\<open>CHMOD\<close>,
  \<open>CHOWN\<close>, \<open>SYMLINK\<close>), which is called with everything after that space, empty or
  not, and any other token gets the not-recognised reply; when the parameter has no space
  at all, the reply is the not-recognised one whatever the token is.
\<close>

theorem handleSITE_dispatch:
  assumes "\<not> DisableSite (settings (server c))"
  shows "(\<forall>tok rest. param c = tok @ '' '' @ rest \<and> CHR '' '' \<notin> set tok \<longrightarrow>
            handleSITE env c =
              (if ToUpper env tok = ''CHMOD'' then emit (HandleCHMOD rest) c
               else if ToUpper env tok = ''CHOWN'' then emit (HandleCHOWN rest) c
               else if ToUpper env tok = ''SYMLINK'' then emit (HandleSYMLINK rest) c
               else writeMessage StatusSyntaxErrorNotRecognised ''Not understood SITE subcommand'' c))
       \<and> (CHR '' '' \<notin> set (param c) \<longrightarrow>
            handleSITE env c =
              writeMessage StatusSyntaxErrorNotRecognised ''Not understood SITE subcommand'' c)"
  using assms by (auto simp: handleSITE_def SplitN_2_token SplitN_2_single)

text \<open>C10 as stated fails: \<open>CHMOD\<close> followed by a space and nothing else is a recognised
  token with no remainder, and the code calls \<open>handleCHMOD\<close> with the empty string
  instead of writing the not-recognised reply.\<close>

theorem handleSITE_empty_remainder_invokes_handler:
  "events (handleSITE sampleEnv (sampleSession\<lparr>param := ''CHMOD ''\<rparr>)) = [HandleCHMOD []]"
  by (simp add: handleSITE_def SplitN_2 ToUpper_def isASCII_def toUpperASCII_def emit_def
      sample_defs)

text \<open>A lower-case \<open>chmod\<close> with arguments, and \<open>SYMLINK\<close> alone.\<close>

theorem handleSITE_dispatch_witness:
  "handleSITE sampleEnv (sampleSession\<lparr>param := ''chmod 644 f''\<rparr>) =
     emit (HandleCHMOD ''644 f'') (sampleSession\<lparr>param := ''chmod 644 f''\<rparr>)
   \<and> handleSITE sampleEnv (sampleSession\<lparr>param := ''SYMLINK''\<rparr>) =
     writeMessage StatusSyntaxErrorNotRecognised ''Not understood SITE subcommand''
       (sampleSession\<lparr>param := ''SYMLINK''\<rparr>)"
proof -
  let ?c1 = "sampleSession\<lparr>param := ''chmod 644 f''\<rparr>"
  let ?c2 = "sampleSession\<lparr>param := ''SYMLINK''\<rparr>"
  have e1: "\<not> DisableSite (settings (server ?c1))" by (simp add: sample_defs)
  have e2: "\<not> DisableSite (settings (server ?c2))" by (simp add: sample_defs)
  have p1: "param ?c1 = ''chmod'' @ '' '' @ ''644 f'' \<and> CHR '' '' \<notin> set ''chmod''" by simp
  have u: "ToUpper sampleEnv ''chmod'' = ''CHMOD''"
    by (simp add: ToUpper_def isASCII_def toUpperASCII_def)
  have p2: "CHR '' '' \<notin> set (param ?c2)" by simp
  have r1: "handleSITE sampleEnv ?c1 =
              (if ToUpper sampleEnv ''chmod'' = ''CHMOD'' then emit (HandleCHMOD ''644 f'') ?c1
               else if ToUpper sampleEnv ''chmod'' = ''CHOWN'' then emit (HandleCHOWN ''644 f'') ?c1
               else if ToUpper sampleEnv ''chmod'' = ''SYMLINK'' then emit (HandleSYMLINK ''644 f'') ?c1
               else writeMessage StatusSyntaxErrorNotRecognised ''Not understood SITE subcommand'' ?c1)"
    using handleSITE_dispatch[OF e1, of sampleEnv] p1 by blast
  have r2: "handleSITE sampleEnv ?c2 =
              writeMessage StatusSyntaxErrorNotRecognised ''Not understood SITE subcommand'' ?c2"
    using handleSITE_dispatch[OF e2, of sampleEnv] p2 by blast
  show ?thesis
    unfolding r2 using r1 u by simp
qed

section \<open>OPTS\<close>

lemma currentHashName_in:
  "v \<in> snd ` set hm \<Longrightarrow> (currentHashName hm v, v) \<in> set hm"
proof (induction hm rule: rev_induct)
  case Nil
  then show ?case by simp
next
  case (snoc x xs)
  obtain k v' where x: "x = (k, v')" by (cases x)
  show ?case
  proof (cases "v' = v")
    case True
    then show ?thesis by (simp add: currentHashName_def x)
  next
    case False
    with snoc.prems x have "v \<in> snd ` set xs" by auto
    from snoc.IH[OF this] False show ?thesis
      by (simp add: currentHashName_def x)
  qed
qed



declare utoa.simps [simp del]



section \<open>FEAT\<close>

lemma foldl_writeLine:
  "foldl (\<lambda>c f. writeLine (g f) c) c fs =
     c\<lparr>events := events c @ map (\<lambda>f. WriteLine (writer c) (g f)) fs\<rparr>"
proof (induction fs arbitrary: c)
  case Nil
  show ?case by simp
next
  case (Cons f fs)
  show ?case
    unfolding foldl_Cons list.map Cons.IH
    by (simp add: io_defs)
qed

lemma handleFEAT_eq:
  "handleFEAT env c =
     c\<lparr>events := events c @
        WriteLine (writer c) (utoa (statusCode env StatusSystemStatus) @ ''- These are my features'')
        # map (\<lambda>f. WriteLine (writer c) ('' '' @ f)) (features env c)
        @ [WriteMessage (writer c) StatusSystemStatus ''end'']\<rparr>"
proof -
  define first where "first = utoa (statusCode env StatusSystemStatus) @ ''- These are my features''"
  define fs where "fs = features env c"
  have "handleFEAT env c =
        writeMessage StatusSystemStatus ''end''
          (foldl (\<lambda>c f. writeLine ('' '' @ f) c) (writeLine first c) fs)"
    unfolding handleFEAT_def Let_def first_def fs_def ..
  also have "\<dots> = c\<lparr>events := events c @ WriteLine (writer c) first
        # map (\<lambda>f. WriteLine (writer c) ('' '' @ f)) fs
        @ [WriteMessage (writer c) StatusSystemStatus ''end'']\<rparr>"
    unfolding foldl_writeLine by (simp add: io_defs)
  finally show ?thesis unfolding first_def fs_def .
qed

lemma hashLine_concat:
  "foldl (\<lambda>line (k, v). line @ k @ (if v = selected then ''*'' else []) @ '';'') acc hm =
     acc @ concat (map (\<lambda>(k, v). k @ (if v = selected then ''*'' else []) @ '';'') hm)"
  by (induction hm arbitrary: acc) (auto split: prod.splits)

lemma hashLine_eq:
  "hashLine hm selected =
     concat (map (\<lambda>(k, v). k @ (if v = selected then ''*'' else []) @ '';'') hm)"
  unfolding hashLine_def hashLine_concat by simp

lemma hashLine_shape: "hashLine hm selected = [] \<or> last (hashLine hm selected) = CHR '';''"
proof (induction hm rule: rev_induct)
  case Nil
  show ?case by (simp add: hashLine_eq)
next
  case (snoc x xs)
  obtain k v where x: "x = (k, v)" by (cases x)
  show ?case by (simp add: hashLine_eq x)
qed

lemma hashLine_neq: "L \<noteq> [] \<Longrightarrow> last L \<noteq> CHR '';'' \<Longrightarrow> hashLine hm selected \<noteq> L"
  using hashLine_shape[of hm selected] by auto

lemma AUTH_TLS_feature:
  "(''AUTH TLS'' \<in> set (features env c)) = (\<exists>tlsConfig. GetTLSConfig (server c) = (Some tlsConfig, None))"
proof -
  have ne: "hashLine (getHashMapping env) (selectedHashAlgo c) \<noteq> ''AUTH TLS''"
    by (rule hashLine_neq) simp_all
  obtain cfg err where g: "GetTLSConfig (server c) = (cfg, err)"
    by (cases "GetTLSConfig (server c)")
  show ?thesis
    using ne[symmetric]
    by (cases cfg; cases err) (simp_all add: features_def Let_def nonStandardHashImpl_def g)
qed

lemma hashLine_feature:
  "(hashLine (getHashMapping env) (selectedHashAlgo c) \<in> set (features env c)) =
     EnableHASH (settings (server c))"
proof -
  let ?h = "hashLine (getHashMapping env) (selectedHashAlgo c)"
  have ne: "?h \<noteq> ''CLNT''" "?h \<noteq> ''UTF8''" "?h \<noteq> ''SIZE''" "?h \<noteq> ''MDTM''"
    "?h \<noteq> ''REST STREAM''" "?h \<noteq> ''MLSD''" "?h \<noteq> ''MLST''" "?h \<noteq> ''MFMT''"
    "?h \<noteq> ''AUTH TLS''"
    by (rule hashLine_neq; simp)+
  obtain cfg err where g: "GetTLSConfig (server c) = (cfg, err)"
    by (cases "GetTLSConfig (server c)")
  show ?thesis
    using ne
    by (cases cfg; cases err) (simp_all add: features_def Let_def g)
qed

text \<open>
  C7. The FEAT reply is the first line, one line per feature (a space and the feature),
  and the closing message. \<open>AUTH TLS\<close> is among the features exactly when
  \<open>GetTLSConfig\<close> returns a configuration that is not nil together with a nil error; the
  composite hash line is among them exactly when the hash extension is enabled; and that
  line is every name of the table followed by a semicolon, with a star before the
  semicolon of each name whose algorithm is the selected one.
\<close>

theorem handleFEAT_features:
  "events (handleFEAT env c) =
     events c @
       WriteLine (writer c) (utoa (statusCode env StatusSystemStatus) @ ''- These are my features'')
       # map (\<lambda>f. WriteLine (writer c) ('' '' @ f)) (features env c)
       @ [WriteMessage (writer c) StatusSystemStatus ''end'']
   \<and> (''AUTH TLS'' \<in> set (features env c)) =
       (\<exists>tlsConfig. GetTLSConfig (server c) = (Some tlsConfig, None))
   \<and> (hashLine (getHashMapping env) (selectedHashAlgo c) \<in> set (features env c)) =
       EnableHASH (settings (server c))
   \<and> hashLine (getHashMapping env) (selectedHashAlgo c) =
       concat (map (\<lambda>(k, v). k @ (if v = selectedHashAlgo c then ''*'' else []) @ '';'')
         (getHashMapping env))"
  unfolding handleFEAT_eq
  using AUTH_TLS_feature[of env c] hashLine_feature[of env c]
    hashLine_eq[of "getHashMapping env" "selectedHashAlgo c"]
  by simp

lemma utoa_211: "utoa 211 = ''211''"
  by (simp add: utoa.simps[of 211] utoa.simps[of 21] utoa.simps[of 2])

text \<open>The reply of the sample session, which has every extension enabled and SHA-256
  selected.\<close>

theorem handleFEAT_features_witness:
  "events (handleFEAT sampleEnv sampleSession) =
     map (WriteLine (NewWriter (NetConn ''peer'')))
       [''211- These are my features'', '' CLNT'', '' UTF8'', '' SIZE'', '' MDTM'', '' REST STREAM'',
        '' MLSD'', '' MLST'', '' MFMT'', '' AUTH TLS'', '' CRC32;MD5;SHA-1;SHA-256*;SHA-512;'',
        '' XCRC'', '' MD5'', '' XMD5'', '' XSHA'', '' XSHA1'', '' XSHA256'', '' XSHA512'']
     @ [WriteMessage (NewWriter (NetConn ''peer'')) StatusSystemStatus ''end'']"
proof -
  have f: "features sampleEnv sampleSession =
     [''CLNT'', ''UTF8'', ''SIZE'', ''MDTM'', ''REST STREAM'', ''MLSD'', ''MLST'', ''MFMT'', ''AUTH TLS'',
      hashLine (getHashMapping sampleEnv) (selectedHashAlgo sampleSession),
      ''XCRC'', ''MD5'', ''XMD5'', ''XSHA'', ''XSHA1'', ''XSHA256'', ''XSHA512'']"
    by (simp add: features_def nonStandardHashImpl_def sampleSession_def tlsServer_def
        sampleSettings_def)
  have c: "statusCode sampleEnv StatusSystemStatus = 211"
    by (simp add: sampleEnv_def sampleCode_def)
  have w: "writer sampleSession = NewWriter (NetConn ''peer'')" "events sampleSession = []"
    by (simp_all add: sampleSession_def)
  have m: "getHashMapping sampleEnv = sampleMapping" "selectedHashAlgo sampleSession = HASHAlgoSHA256"
    by (simp_all add: sampleEnv_def sampleSession_def)
  from handleFEAT_features[of sampleEnv sampleSession]
  have "events (handleFEAT sampleEnv sampleSession) =
     events sampleSession @
       WriteLine (writer sampleSession)
         (utoa (statusCode sampleEnv StatusSystemStatus) @ ''- These are my features'')
       # map (\<lambda>f. WriteLine (writer sampleSession) ('' '' @ f)) (features sampleEnv sampleSession)
       @ [WriteMessage (writer sampleSession) StatusSystemStatus ''end'']"
    and "hashLine (getHashMapping sampleEnv) (selectedHashAlgo sampleSession) =
       concat (map (\<lambda>(k, v). k @ (if v = selectedHashAlgo sampleSession then ''*'' else []) @ '';'')
         (getHashMapping sampleEnv))"
    by blast+
  then show ?thesis
    unfolding f c w utoa_211 m by (simp add: sampleMapping_def)
qed

section \<open>What the handlers leave alone\<close>

lemma computeHashForFile_frame:
  "snd (computeHashForFile env c p algo start end) =
     c\<lparr>events := events (snd (computeHashForFile env c p algo start end))\<rparr>"
proof (cases "newHash algo")
  case (Inl e)
  show ?thesis
    unfolding computeHashForFile_unknown[OF Inl] by simp
next
  case h: (Inr h)
  show ?thesis
  proof (cases "fst (openHandle c p start)")
    case (Inl e)
    show ?thesis
      unfolding computeHashForFile_open_failed[OF h Inl] by (simp add: emit_def)
  next
    case (Inr fl)
    show ?thesis
    proof (cases "0 < start \<and> seekError fl \<noteq> None")
      case True
      then obtain e where e: "seekError fl = Some e" and pos: "0 < start" by auto
      show ?thesis
        unfolding computeHashForFile_seek_failed[OF h Inr pos e] by (simp add: emit_def)
    next
      case False
      then have sk: "0 < start \<longrightarrow> seekError fl = None" by auto
      show ?thesis
        unfolding computeHashForFile_copied[OF h Inr sk] by (simp add: emit_def)
    qed
  qed
qed

lemma handleGenericHash_frame:
  "handleGenericHash env algo m c = c\<lparr>events := events (handleGenericHash env algo m c)\<rparr>"
proof -
  let ?args = "SplitN (param c) CHR '' '' 3"
  let ?c0 = "emit (DriverStat (?args ! 0)) c"
  show ?thesis
  proof (cases "Stat (driver c) (?args ! 0)")
    case (Inl err)
    then show ?thesis by (simp add: handleGenericHash_def Let_def io_defs)
  next
    case (Inr info)
    show ?thesis
    proof (cases "IsRegular info")
      case False
      with Inr show ?thesis by (simp add: handleGenericHash_def Let_def io_defs)
    next
      case True
      show ?thesis
      proof (cases "parseRange m ?args (Size info)")
        case (Inl bad)
        with Inr True show ?thesis
          by (cases bad) (simp add: handleGenericHash_def Let_def io_defs)
      next
        case rng: (Inr range)
        obtain s e where range: "range = (s, e)" by (cases range)
        obtain r c1 where ch: "computeHashForFile env ?c0 (absPath env (?args ! 0)) algo s e = (r, c1)"
          by (cases "computeHashForFile env ?c0 (absPath env (?args ! 0)) algo s e")
        define evs where "evs = events c1"
        have c1: "c1 = c\<lparr>events := evs\<rparr>"
          using computeHashForFile_frame[of env ?c0 "absPath env (?args ! 0)" algo s e] ch
          by (simp add: emit_def evs_def)
        show ?thesis
          using Inr True rng range ch
          by (cases r) (simp_all add: handleGenericHash_def Let_def io_defs c1)
      qed
    qed
  qed
qed

lemma handleGenericHash_controlTLS:
  "controlTLS (handleGenericHash env algo m c) = controlTLS c"
  by (subst handleGenericHash_frame) simp

lemma handleGenericHash_selectedHashAlgo:
  "selectedHashAlgo (handleGenericHash env algo m c) = selectedHashAlgo c"
  by (subst handleGenericHash_frame) simp

lemmas hash_handler_defs =
  handleHASH_def handleCRC32_def handleMD5_def handleSHA1_def handleSHA256_def handleSHA512_def

lemmas plain_handler_defs =
  handlePROT_def handlePBSZ_def handleSYST_def handleSTAT_def handleSTATServer_def handleSITE_def
  handleNOOP_def handleCLNT_def handleTYPE_def handleQUIT_def

lemma handle_controlTLS:
  "controlTLS (handle env h c) = (controlTLS c \<or> h = CmdAUTH \<and> snd (GetTLSConfig (server c)) = None)"
proof (cases h)
  case CmdAUTH
  then show ?thesis
    by (cases "GetTLSConfig (server c)")
       (auto simp: handleAUTH_def Let_def io_defs split: option.splits)
next
  case CmdOPTS
  then show ?thesis
    by (simp add: handleOPTS_def Let_def io_defs split: option.splits)
next
  case CmdFEAT
  then show ?thesis by (simp add: handleFEAT_eq)
qed (simp_all add: plain_handler_defs hash_handler_defs handleGenericHash_controlTLS Let_def io_defs)

lemma handle_selectedHashAlgo:
  "h \<noteq> CmdOPTS \<Longrightarrow> selectedHashAlgo (handle env h c) = selectedHashAlgo c"
proof (cases h)
  case CmdAUTH
  then show ?thesis
    by (cases "GetTLSConfig (server c)")
       (auto simp: handleAUTH_def Let_def io_defs split: option.splits)
next
  case CmdFEAT
  then show ?thesis by (simp add: handleFEAT_eq)
qed (simp_all add: plain_handler_defs hash_handler_defs handleGenericHash_selectedHashAlgo Let_def io_defs)

lemma handleOPTS_selectedHashAlgo:
  "selectedHashAlgo (handleOPTS env c) = selectedHashAlgo c
   \<or> (\<exists>name. map_of (getHashMapping env) name = Some (selectedHashAlgo (handleOPTS env c)))"
  by (auto simp: handleOPTS_def Let_def io_defs split: option.splits)

text \<open>
  C9. If the session's algorithm is a value of the table, it still is after any handler
  of the file: every handler but \<open>handleOPTS\<close> leaves it as it was, and \<open>handleOPTS\<close>
  either leaves it or sets it to a value looked up in the table. The reverse lookup then
  finds a name that the table maps to the session's algorithm.
\<close>

theorem selectedHashAlgo_stays_in_mapping:
  assumes "selectedHashAlgo c \<in> snd ` set (getHashMapping env)"
  shows "selectedHashAlgo (handle env h c) \<in> snd ` set (getHashMapping env)
       \<and> (h \<noteq> CmdOPTS \<longrightarrow> selectedHashAlgo (handle env h c) = selectedHashAlgo c)
       \<and> (selectedHashAlgo (handleOPTS env c) = selectedHashAlgo c
            \<or> (\<exists>name. map_of (getHashMapping env) name = Some (selectedHashAlgo (handleOPTS env c))))
       \<and> (currentHashName (getHashMapping env) (selectedHashAlgo c), selectedHashAlgo c)
            \<in> set (getHashMapping env)"
proof (intro conjI impI)
  show "selectedHashAlgo (handle env h c) \<in> snd ` set (getHashMapping env)"
  proof (cases "h = CmdOPTS")
    case True
    from handleOPTS_selectedHashAlgo[of env c] show ?thesis
    proof
      assume "selectedHashAlgo (handleOPTS env c) = selectedHashAlgo c"
      with assms True show ?thesis by simp
    next
      assume "\<exists>name. map_of (getHashMapping env) name = Some (selectedHashAlgo (handleOPTS env c))"
      then obtain name where "map_of (getHashMapping env) name = Some (selectedHashAlgo (handleOPTS env c))"
        by blast
      then have "(name, selectedHashAlgo (handleOPTS env c)) \<in> set (getHashMapping env)"
        by (rule map_of_SomeD)
      then show ?thesis using True by force
    qed
  next
    case False
    with assms show ?thesis by (simp add: handle_selectedHashAlgo)
  qed
next
  assume "h \<noteq> CmdOPTS"
  then show "selectedHashAlgo (handle env h c) = selectedHashAlgo c"
    by (rule handle_selectedHashAlgo)
next
  show "selectedHashAlgo (handleOPTS env c) = selectedHashAlgo c
            \<or> (\<exists>name. map_of (getHashMapping env) name = Some (selectedHashAlgo (handleOPTS env c)))"
    by (rule handleOPTS_selectedHashAlgo)
next
  show "(currentHashName (getHashMapping env) (selectedHashAlgo c), selectedHashAlgo c)
            \<in> set (getHashMapping env)"
    using assms by (rule currentHashName_in)
qed

text \<open>\<open>OPTS HASH MD5\<close> on the sample session, whose algorithm is SHA-256.\<close>

theorem selectedHashAlgo_stays_in_mapping_witness:
  "selectedHashAlgo (handle sampleEnv CmdOPTS (sampleSession\<lparr>param := ''HASH MD5''\<rparr>))
       \<in> snd ` set (getHashMapping sampleEnv)
   \<and> (currentHashName (getHashMapping sampleEnv) HASHAlgoSHA256, HASHAlgoSHA256)
       \<in> set (getHashMapping sampleEnv)"
proof -
  have a: "selectedHashAlgo (sampleSession\<lparr>param := ''HASH MD5''\<rparr>) \<in> snd ` set (getHashMapping sampleEnv)"
    by (simp add: sample_defs)
  have b: "selectedHashAlgo (sampleSession\<lparr>param := ''HASH MD5''\<rparr>) = HASHAlgoSHA256"
    by (simp add: sample_defs)
  show ?thesis
    using selectedHashAlgo_stays_in_mapping[OF a, of CmdOPTS] unfolding b by blast
qed

section \<open>The control-channel flag\<close>

lemma dispatch_controlTLS: "controlTLS c \<Longrightarrow> controlTLS (dispatch k c)"
  by (simp add: dispatch_def handle_controlTLS)

lemma upgrades_all_True: "\<forall>b\<in>set bs. b \<Longrightarrow> upgrades bs = 0"
  by (induction bs rule: upgrades.induct) auto

lemma reverts_all_True: "\<forall>b\<in>set bs. b \<Longrightarrow> reverts bs = 0"
  by (induction bs rule: reverts.induct) auto

lemma sessions_stay_secure: "controlTLS c \<Longrightarrow> \<forall>b\<in>set (map controlTLS (sessions c ks)). b"
proof (induction ks arbitrary: c)
  case Nil
  then show ?case by simp
next
  case (Cons k ks)
  from Cons.prems have "controlTLS (dispatch k c)" by (rule dispatch_controlTLS)
  from Cons.IH[OF this] Cons.prems show ?case by simp
qed

lemma sessions_Cons: "\<exists>rest. sessions c ks = c # rest"
  by (cases ks) auto

lemma controlTLS_steps:
  "upgrades (map controlTLS (sessions c ks)) \<le> 1 \<and> reverts (map controlTLS (sessions c ks)) = 0"
proof (induction ks arbitrary: c)
  case Nil
  show ?case by simp
next
  case (Cons k ks)
  obtain rest where rest: "sessions (dispatch k c) ks = dispatch k c # rest"
    using sessions_Cons by blast
  show ?case
  proof (cases "controlTLS (dispatch k c)")
    case True
    have "\<forall>b\<in>set (map controlTLS (sessions (dispatch k c) ks)). b"
      using True by (rule sessions_stay_secure)
    then have "upgrades (map controlTLS (sessions (dispatch k c) ks)) = 0"
      and "reverts (map controlTLS (sessions (dispatch k c) ks)) = 0"
      by (rule upgrades_all_True, rule reverts_all_True)
    then show ?thesis using True by (simp add: rest)
  next
    case False
    then have "\<not> controlTLS c" using dispatch_controlTLS by blast
    with False Cons.IH[of "dispatch k c"] show ?thesis by (simp add: rest)
  qed
qed

text \<open>
  What holds of the flag and of \<open>handleAUTH\<close>. Along any sequence of calls to the handlers
  of the file, \<open>controlTLS\<close> goes from false to true at most once and never back. When
  \<open>GetTLSConfig\<close> returns an error, \<open>handleAUTH\<close> writes \<open>StatusActionNotTaken\<close> with the
  error and changes nothing else. When it returns a configuration and a nil error,
  \<open>handleAUTH\<close> writes \<open>StatusAuthAccepted\<close> through the writer of the connection as it
  was, and then replaces the connection by \<open>tls.Server\<close> of it, binds a new reader and
  writer to the new connection and sets the flag.
\<close>

lemma controlTLS_and_handleAUTH:
  "upgrades (map controlTLS (sessions c ks)) \<le> 1
   \<and> reverts (map controlTLS (sessions c ks)) = 0
   \<and> (\<forall>tlsConfig err. GetTLSConfig (server c) = (tlsConfig, Some err) \<longrightarrow>
        handleAUTH c =
          c\<lparr>events := events c @
            [WriteMessage (writer c) StatusActionNotTaken
               (''Cannot get a TLS config: '' @ Error err)]\<rparr>)
   \<and> (\<forall>tlsConfig. GetTLSConfig (server c) = (Some tlsConfig, None) \<longrightarrow>
        handleAUTH c =
          c\<lparr>events := events c @
              [WriteMessage (writer c) StatusAuthAccepted
                 ''AUTH command ok. Expecting TLS Negotiation.''],
            conn := TLSServer (conn c) (Some tlsConfig),
            reader := NewReader (TLSServer (conn c) (Some tlsConfig)),
            writer := NewWriter (TLSServer (conn c) (Some tlsConfig)),
            controlTLS := True\<rparr>)"
  using controlTLS_steps[of c ks]
  by (auto simp: handleAUTH_def Let_def io_defs)

text \<open>Five calls, the first \<open>AUTH\<close> refused, the second accepted, a third \<open>AUTH\<close> later on.\<close>

lemma controlTLS_and_handleAUTH_sample:
  "upgrades (map controlTLS (sessions sampleSession sampleCalls)) \<le> 1
   \<and> reverts (map controlTLS (sessions sampleSession sampleCalls)) = 0
   \<and> map controlTLS (sessions sampleSession sampleCalls) = [False, False, True, True, True, True]
   \<and> handleAUTH (sampleSession\<lparr>server := plainServer\<rparr>) =
       sampleSession\<lparr>server := plainServer,
         events := [WriteMessage (NewWriter (NetConn ''peer'')) StatusActionNotTaken
                      ''Cannot get a TLS config: no certificate'']\<rparr>
   \<and> handleAUTH sampleSession =
       sampleSession\<lparr>events := [WriteMessage (NewWriter (NetConn ''peer'')) StatusAuthAccepted
                      ''AUTH command ok. Expecting TLS Negotiation.''],
         conn := TLSServer (NetConn ''peer'') (Some (TLSConfig ''cert'')),
         reader := NewReader (TLSServer (NetConn ''peer'') (Some (TLSConfig ''cert''))),
         writer := NewWriter (TLSServer (NetConn ''peer'') (Some (TLSConfig ''cert''))),
         controlTLS := True\<rparr>"
proof -
  have g1: "GetTLSConfig (server (sampleSession\<lparr>server := plainServer\<rparr>)) =
            (None, Some (DriverError ''no certificate''))"
    by (simp add: plainServer_def)
  have g2: "GetTLSConfig (server sampleSession) = (Some (TLSConfig ''cert''), None)"
    by (simp add: sampleSession_def tlsServer_def)
  have r1: "handleAUTH (sampleSession\<lparr>server := plainServer\<rparr>) =
      (sampleSession\<lparr>server := plainServer\<rparr>)\<lparr>events := events (sampleSession\<lparr>server := plainServer\<rparr>) @
            [WriteMessage (writer (sampleSession\<lparr>server := plainServer\<rparr>)) StatusActionNotTaken
               (''Cannot get a TLS config: '' @ Error (DriverError ''no certificate''))]\<rparr>"
    using controlTLS_and_handleAUTH[of "sampleSession\<lparr>server := plainServer\<rparr>" "[]"] g1 by blast
  have r2: "handleAUTH sampleSession =
      sampleSession\<lparr>events := events sampleSession @
              [WriteMessage (writer sampleSession) StatusAuthAccepted
                 ''AUTH command ok. Expecting TLS Negotiation.''],
            conn := TLSServer (conn sampleSession) (Some (TLSConfig ''cert'')),
            reader := NewReader (TLSServer (conn sampleSession) (Some (TLSConfig ''cert''))),
            writer := NewWriter (TLSServer (conn sampleSession) (Some (TLSConfig ''cert''))),
            controlTLS := True\<rparr>"
    using controlTLS_and_handleAUTH[of sampleSession "[]"] g2 by blast
  have fl: "map controlTLS (sessions sampleSession sampleCalls) = [False, False, True, True, True, True]"
    by (simp add: sampleCalls_def dispatch_def handleAUTH_def handlePROT_def handleQUIT_def
        Let_def io_defs sampleSession_def tlsServer_def plainServer_def)
  have u: "upgrades (map controlTLS (sessions sampleSession sampleCalls)) \<le> 1
   \<and> reverts (map controlTLS (sessions sampleSession sampleCalls)) = 0"
    using controlTLS_and_handleAUTH[of sampleSession sampleCalls] by blast
  show ?thesis
    unfolding r1 r2 using u fl by (simp add: sampleSession_def)
qed

text \<open>
  C5 fails where the driver has no configuration to give and reports no error either:
  \<open>GetTLSConfig\<close> returns a nil configuration with a nil error. Line 26 tests the error
  alone, so \<open>handleAUTH\<close> writes \<open>StatusAuthAccepted\<close>, wraps the connection by
  \<open>tls.Server\<close> with the nil configuration and sets \<open>controlTLS\<close>, instead of writing
  \<open>StatusActionNotTaken\<close> and leaving the session as it was. \<open>handleFEAT\<close>, at line 192,
  tests the configuration as well as the error and does not offer \<open>AUTH TLS\<close> to the same
  session.
\<close>

theorem handleAUTH_accepts_nil_config:
  "GetTLSConfig (server (sampleSession\<lparr>server := nilConfigServer\<rparr>)) = (None, None)
   \<and> handleAUTH (sampleSession\<lparr>server := nilConfigServer\<rparr>) =
       sampleSession\<lparr>server := nilConfigServer,
         events := [WriteMessage (NewWriter (NetConn ''peer'')) StatusAuthAccepted
                      ''AUTH command ok. Expecting TLS Negotiation.''],
         conn := TLSServer (NetConn ''peer'') None,
         reader := NewReader (TLSServer (NetConn ''peer'') None),
         writer := NewWriter (TLSServer (NetConn ''peer'') None),
         controlTLS := True\<rparr>
   \<and> ''AUTH TLS'' \<notin> set (features sampleEnv (sampleSession\<lparr>server := nilConfigServer\<rparr>))"
  by (simp add: handleAUTH_def Let_def io_defs features_def nonStandardHashImpl_def hashLine_def
      sampleSession_def nilConfigServer_def sampleSettings_def sampleEnv_def sampleMapping_def)

end
